theory Spec2Isabelle
  imports Main "HOL-Library.AList" "HOL-Library.Sublist"
begin

section \<open>Python values and string primitives\<close>

text \<open>
  The query string is a Python \<^verbatim>\<open>dict\<close> from \<^verbatim>\<open>str\<close> to \<^verbatim>\<open>str\<close>. A dict iterates
  in insertion order and holds every key once, so it is an association list here
  (\<open>map_of\<close> is \<^verbatim>\<open>dict.get\<close>, \<open>AList.update\<close> is \<^verbatim>\<open>dict.update\<close> with one
  entry: an existing key keeps its place and takes the new value, a new key goes last).
  Strings are lists of characters in the ASCII range.
\<close>

type_synonym 'v dict = "(string \<times> 'v) list"

text \<open>\<^verbatim>\<open>key.startswith(name)\<close>\<close>

definition startswith :: "string \<Rightarrow> string \<Rightarrow> bool" where
  "startswith s p = prefix p s"

text \<open>\<^verbatim>\<open>key.index(c)\<close>: the first position of \<open>c\<close>; \<open>None\<close> is the \<^verbatim>\<open>ValueError\<close>.\<close>

fun py_index :: "char \<Rightarrow> string \<Rightarrow> nat option" where
  "py_index c [] = None"
| "py_index c (x # xs) = (if x = c then Some 0 else map_option Suc (py_index c xs))"

text \<open>\<^verbatim>\<open>s[a:b]\<close> for \<open>a\<close>, \<open>b\<close> within the string: empty when \<open>b \<le> a\<close>.\<close>

definition py_slice :: "nat \<Rightarrow> nat \<Rightarrow> string \<Rightarrow> string" where
  "py_slice a b s = take (b - a) (drop a s)"

text \<open>\<^verbatim>\<open>s.split(c)\<close> with a one-character separator: one more piece than separators.\<close>

fun py_split :: "char \<Rightarrow> string \<Rightarrow> string list" where
  "py_split c [] = [[]]"
| "py_split c (x # xs) =
     (if x = c then [] # py_split c xs
      else (case py_split c xs of
              [] \<Rightarrow> [[x]]
            | w # ws \<Rightarrow> (x # w) # ws))"

text \<open>\<^verbatim>\<open>s.strip(c)\<close> with a one-character set.\<close>

definition py_strip :: "char \<Rightarrow> string \<Rightarrow> string" where
  "py_strip c s = rev (dropWhile (\<lambda>x. x = c) (rev (dropWhile (\<lambda>x. x = c) s)))"

text \<open>
  What bracket-group extraction stores under a sub-key: the raw string, or the list
  \<^verbatim>\<open>value.split(',')\<close>.
\<close>

datatype qvalue = Str string | Lst "string list"

text \<open>
  The values \<^verbatim>\<open>json.loads\<close> returns and the filter conditions built from them. A float
  is kept as its literal.
\<close>

datatype pyval =
    PNone
  | PBool bool
  | PInt int
  | PFloat string
  | PStr string
  | PList "pyval list"
  | PDict "(string \<times> pyval) list"

text \<open>
  The exceptions of \<^verbatim>\<open>flask_rest_jsonapi.exceptions\<close> that the parser raises, with the
  message and, for \<^verbatim>\<open>BadRequest\<close>, the \<^verbatim>\<open>source={'parameter': ...}\<close> name; and the
  Python exceptions that can occur inside it.
\<close>

datatype error =
    BadRequest string string
  | InvalidFilters string
  | InvalidSort string
  | InvalidField string
  | InvalidInclude string
  | ValueError
  | TypeError
  | KeyError
  | AttributeError

section \<open>Schemas\<close>

text \<open>
  A marshmallow schema class, as far as the parser looks at it: its \<^verbatim>\<open>__name__\<close> and
  its \<^verbatim>\<open>_declared_fields\<close>. A declared field is a plain attribute or a relationship;
  each carries the name of the model-level field behind it, a relationship also its
  cardinality (\<^verbatim>\<open>many\<close>) and the schema it leads to.
\<close>

datatype schema = Schema (sname: string) (declared_fields: "(string \<times> field) list")
  and field =
    Attribute string
  | Relationship bool string schema

text \<open>
  Modelled from the spec: \<^verbatim>\<open>get_relationships\<close> of \<^verbatim>\<open>flask_rest_jsonapi.schema\<close>, which
  is not among the source files: the declared fields that represent relationships.
\<close>

fun is_relationship :: "field \<Rightarrow> bool" where
  "is_relationship (Relationship many mf rel) = True"
| "is_relationship (Attribute mf) = False"

definition get_relationships :: "schema \<Rightarrow> string list" where
  "get_relationships sch =
     filter (\<lambda>k. case map_of (declared_fields sch) k of
                    None \<Rightarrow> False
                  | Some f \<Rightarrow> is_relationship f)
       (map fst (declared_fields sch))"

text \<open>
  Modelled from the spec: \<^verbatim>\<open>get_model_field\<close> of \<^verbatim>\<open>flask_rest_jsonapi.schema\<close>, which is
  not among the source files: the underlying model-level field of a schema field.
\<close>

fun model_field :: "field \<Rightarrow> string" where
  "model_field (Attribute mf) = mf"
| "model_field (Relationship many mf rel) = mf"

definition get_model_field :: "schema \<Rightarrow> string \<Rightarrow> error + string" where
  "get_model_field sch name =
     (case map_of (declared_fields sch) name of
        None \<Rightarrow> Inl KeyError
      | Some f \<Rightarrow> Inr (model_field f))"

text \<open>
  Modelled from the spec: \<^verbatim>\<open>get_related_schema\<close> of \<^verbatim>\<open>flask_rest_jsonapi.schema\<close>, which
  is not among the source files: the related schema of a relationship field.
\<close>

definition get_related_schema :: "schema \<Rightarrow> string \<Rightarrow> error + schema" where
  "get_related_schema sch name =
     (case map_of (declared_fields sch) name of
        None \<Rightarrow> Inl KeyError
      | Some (Attribute mf) \<Rightarrow> Inl AttributeError
      | Some (Relationship many mf rel) \<Rightarrow> Inr rel)"

section \<open>The parser object\<close>

text \<open>\<^verbatim>\<open>QueryStringManager.__init__\<close> stores the query string and the schema.\<close>

record query_string_manager =
  qs :: "string dict"
  schema :: schema

text \<open>
  \<^verbatim>\<open>current_app.config\<close>, the three keys the parser reads. \<open>None\<close> is a key that is
  not set.
\<close>

record config =
  ALLOW_DISABLE_PAGINATION :: "bool option"
  MAX_PAGE_SIZE :: "int option"
  MAX_INCLUDE_DEPTH :: "int option"

text \<open>One entry of the list \<^verbatim>\<open>sorting\<close> returns.\<close>

record sort_item =
  field :: string
  order :: string
  nulls :: "string option"
  joins :: "string list"

section \<open>Bracket-group extraction\<close>

text \<open>
  \<^verbatim>\<open>_get_key_values\<close>, lines 38 to 63. \<open>item_key\<close> is lines 51 to 53 (\<open>None\<close> when
  either \<^verbatim>\<open>index\<close> raises), \<open>item_value\<close> lines 55 to 58, and the loop updates
  \<^verbatim>\<open>results\<close> key by key, turning any exception into \<^verbatim>\<open>BadRequest\<close> with the key as
  the source parameter.
\<close>

definition item_key :: "string \<Rightarrow> string option" where
  "item_key key =
     (case py_index CHR ''['' key of
        None \<Rightarrow> None
      | Some i \<Rightarrow>
          (case py_index CHR '']'' key of
             None \<Rightarrow> None
           | Some key_end \<Rightarrow> Some (py_slice (i + 1) key_end key)))"

definition item_value :: "string \<Rightarrow> qvalue" where
  "item_value v = (if CHR '','' \<in> set v then Lst (py_split CHR '','' v) else Str v)"

fun get_key_values_loop :: "string \<Rightarrow> string dict \<Rightarrow> qvalue dict \<Rightarrow> error + qvalue dict" where
  "get_key_values_loop name [] results = Inr results"
| "get_key_values_loop name ((key, v) # rest) results =
     (if \<not> startswith key name then get_key_values_loop name rest results
      else (case item_key key of
              None \<Rightarrow> Inl (BadRequest ''Parse error'' key)
            | Some k \<Rightarrow> get_key_values_loop name rest (AList.update k (item_value v) results)))"

definition get_key_values :: "query_string_manager \<Rightarrow> string \<Rightarrow> error + qvalue dict" where
  "get_key_values m name = get_key_values_loop name (qs m) []"

text \<open>\<^verbatim>\<open>_simple_filters\<close>, lines 65 to 67: one equality condition per extracted entry.\<close>

fun pyval_of :: "qvalue \<Rightarrow> pyval" where
  "pyval_of (Str s) = PStr s"
| "pyval_of (Lst xs) = PList (map PStr xs)"

definition simple_filters :: "qvalue dict \<Rightarrow> pyval list" where
  "simple_filters dict =
     map (\<lambda>(key, v). PDict [(''name'', PStr key), (''op'', PStr ''eq''), (''val'', pyval_of v)]) dict"

section \<open>The managed-parameter view\<close>

definition MANAGED_KEYS :: "string list" where
  "MANAGED_KEYS = [''filter'', ''page'', ''fields'', ''sort'', ''include'', ''q'']"

text \<open>
  \<^verbatim>\<open>querystring\<close>, lines 69 to 76. The comprehension keeps an entry when
  \<^verbatim>\<open>key.startswith(self.MANAGED_KEYS)\<close> (a tuple: some member is a prefix of the key)
  or, evaluated only when that is false, when \<^verbatim>\<open>self._get_key_values('filter[')\<close> is
  a non-empty dict; an exception of that call leaves the comprehension.
\<close>

fun querystring_loop :: "query_string_manager \<Rightarrow> string dict \<Rightarrow> error + string dict" where
  "querystring_loop m [] = Inr []"
| "querystring_loop m ((key, v) # rest) =
     (if list_ex (startswith key) MANAGED_KEYS
      then map_sum id (Cons (key, v)) (querystring_loop m rest)
      else (case get_key_values m ''filter['' of
              Inl e \<Rightarrow> Inl e
            | Inr d \<Rightarrow>
                if d \<noteq> [] then map_sum id (Cons (key, v)) (querystring_loop m rest)
                else querystring_loop m rest))"

definition querystring :: "query_string_manager \<Rightarrow> error + string dict" where
  "querystring m = querystring_loop m (qs m)"

section \<open>Filters\<close>

text \<open>
  \<^verbatim>\<open>results.extend(x)\<close> iterates \<open>x\<close>: a list gives its elements, a dict its keys, a
  string its characters; \<open>None\<close> is the \<^verbatim>\<open>TypeError\<close> of a value that is not iterable.
\<close>

fun py_iter :: "pyval \<Rightarrow> pyval list option" where
  "py_iter (PList xs) = Some xs"
| "py_iter (PDict kvs) = Some (map (\<lambda>kv. PStr (fst kv)) kvs)"
| "py_iter (PStr s) = Some (map (\<lambda>c. PStr [c]) s)"
| "py_iter PNone = None"
| "py_iter (PBool b) = None"
| "py_iter (PInt i) = None"
| "py_iter (PFloat f) = None"

text \<open>
  \<^verbatim>\<open>filters\<close>, lines 78 to 93. \<^verbatim>\<open>json.loads\<close> is the standard library's decoder, taken
  as the parameter \<open>json_loads\<close>: \<open>None\<close> is its \<^verbatim>\<open>ValueError\<close>. Both handlers of
  line 89 end in \<^verbatim>\<open>InvalidFilters("Parse error")\<close>.
\<close>

definition filters ::
  "(string \<Rightarrow> pyval option) \<Rightarrow> query_string_manager \<Rightarrow> error + pyval list" where
  "filters json_loads m =
     (case (case map_of (qs m) ''filter'' of
              None \<Rightarrow> Inr []
            | Some s \<Rightarrow>
                (case json_loads s of
                   None \<Rightarrow> Inl (InvalidFilters ''Parse error'')
                 | Some decoded \<Rightarrow>
                     (case py_iter decoded of
                        None \<Rightarrow> Inl (InvalidFilters ''Parse error'')
                      | Some xs \<Rightarrow> Inr xs))) of
        Inl e \<Rightarrow> Inl e
      | Inr results \<Rightarrow>
          (case get_key_values m ''filter['' of
             Inl e \<Rightarrow> Inl e
           | Inr d \<Rightarrow> if d \<noteq> [] then Inr (results @ simple_filters d) else Inr results))"

section \<open>Pagination\<close>

text \<open>
  \<^verbatim>\<open>int(s)\<close> on a string: surrounding whitespace is dropped, then an optional sign and
  decimal digits, single underscores allowed between digits. \<open>None\<close> is the
  \<^verbatim>\<open>ValueError\<close>. The whitespace \<^verbatim>\<open>int\<close> drops from an ASCII string is the tab, the
  line feed, the vertical tab, the form feed, the carriage return and the space.
\<close>

definition py_isspace :: "char \<Rightarrow> bool" where
  "py_isspace c = (of_char c \<in> set [9, 10, 11, 12, 13, 32 :: nat])"

definition is_digit :: "char \<Rightarrow> bool" where
  "is_digit c = (48 \<le> (of_char c :: nat) \<and> (of_char c :: nat) \<le> 57)"

definition digit_val :: "char \<Rightarrow> nat" where
  "digit_val c = of_char c - 48"

fun parse_digits :: "nat \<Rightarrow> string \<Rightarrow> nat option" where
  "parse_digits acc [] = Some acc"
| "parse_digits acc [c] = (if is_digit c then Some (10 * acc + digit_val c) else None)"
| "parse_digits acc (c # d # cs) =
     (if is_digit c then parse_digits (10 * acc + digit_val c) (d # cs)
      else if c = CHR ''_'' \<and> is_digit d then parse_digits acc (d # cs)
      else None)"

definition parse_decimal :: "string \<Rightarrow> nat option" where
  "parse_decimal s =
     (case s of
        [] \<Rightarrow> None
      | c # cs \<Rightarrow> if is_digit c then parse_digits 0 s else None)"

definition int_of_str :: "string \<Rightarrow> int option" where
  "int_of_str s =
     (case rev (dropWhile py_isspace (rev (dropWhile py_isspace s))) of
        [] \<Rightarrow> None
      | c # cs \<Rightarrow>
          if c = CHR ''-'' then map_option (\<lambda>n. - int n) (parse_decimal cs)
          else if c = CHR ''+'' then map_option int (parse_decimal cs)
          else map_option int (parse_decimal (c # cs)))"

text \<open>
  \<^verbatim>\<open>int(value)\<close> on an extracted value: a string that is no integer raises
  \<^verbatim>\<open>ValueError\<close>, a list raises \<^verbatim>\<open>TypeError\<close>.
\<close>

fun py_int :: "qvalue \<Rightarrow> error + int" where
  "py_int (Str s) = (case int_of_str s of None \<Rightarrow> Inl ValueError | Some i \<Rightarrow> Inr i)"
| "py_int (Lst xs) = Inl TypeError"

text \<open>\<^verbatim>\<open>"{}".format(i)\<close> for an integer.\<close>

function show_nat :: "nat \<Rightarrow> string" where
  "show_nat n =
     (if n < 10 then [char_of (48 + n)]
      else show_nat (n div 10) @ [char_of (48 + n mod 10)])"
  by pat_completeness auto
termination
  by (relation "measure id") auto

declare show_nat.simps [simp del]

definition show_int :: "int \<Rightarrow> string" where
  "show_int i = (if i < 0 then CHR ''-'' # show_nat (nat (- i)) else show_nat (nat i))"

text \<open>
  \<^verbatim>\<open>pagination\<close>, lines 95 to 132. The loop of lines 116 to 122 checks the entries in
  order: the sub-key first, then \<^verbatim>\<open>int(value)\<close>, of which only the \<^verbatim>\<open>ValueError\<close> is
  caught.
\<close>

fun pagination_loop :: "qvalue dict \<Rightarrow> error + unit" where
  "pagination_loop [] = Inr ()"
| "pagination_loop ((key, v) # rest) =
     (if key \<notin> set [''number'', ''size'']
      then Inl (BadRequest (key @ '' is not a valid parameter of pagination'') ''page'')
      else (case py_int v of
              Inl ValueError \<Rightarrow> Inl (BadRequest ''Parse error'' (''page['' @ key @ '']''))
            | Inl e \<Rightarrow> Inl e
            | Inr i \<Rightarrow> pagination_loop rest))"

text \<open>\<^verbatim>\<open>int(result.get('size', 1))\<close> and \<^verbatim>\<open>int(result['size'])\<close>.\<close>

definition size_or_default :: "qvalue dict \<Rightarrow> error + int" where
  "size_or_default result =
     (case map_of result ''size'' of
        None \<Rightarrow> Inr 1
      | Some v \<Rightarrow> py_int v)"

definition pagination :: "config \<Rightarrow> query_string_manager \<Rightarrow> error + qvalue dict" where
  "pagination cfg m =
     (case get_key_values m ''page'' of
        Inl e \<Rightarrow> Inl e
      | Inr result \<Rightarrow>
          (case pagination_loop result of
             Inl e \<Rightarrow> Inl e
           | Inr u \<Rightarrow>
               (case (if ALLOW_DISABLE_PAGINATION cfg = Some False
                      then map_sum id (\<lambda>i. i = 0) (size_or_default result)
                      else Inr False) of
                  Inl e \<Rightarrow> Inl e
                | Inr True \<Rightarrow>
                    Inl (BadRequest ''You are not allowed to disable pagination'' ''page[size]'')
                | Inr False \<Rightarrow>
                    (case MAX_PAGE_SIZE cfg of
                       None \<Rightarrow> Inr result
                     | Some limit \<Rightarrow>
                         (case map_of result ''size'' of
                            None \<Rightarrow> Inr result
                          | Some v \<Rightarrow>
                              (case py_int v of
                                 Inl e \<Rightarrow> Inl e
                               | Inr i \<Rightarrow>
                                   if i > limit
                                   then Inl (BadRequest (''Maximum page size is '' @ show_int limit)
                                               ''page[size]'')
                                   else Inr result))))))"

section \<open>Sparse fieldsets\<close>

text \<open>
  \<^verbatim>\<open>fields\<close>, lines 134 to 158. \<^verbatim>\<open>get_schema_from_type\<close> belongs to
  \<^verbatim>\<open>flask_rest_jsonapi.schema\<close>, which is not among the source files; it is the
  parameter \<open>get_schema_from_type\<close>, whose own exception, if it raises one, leaves the
  accessor. The first loop wraps scalars, the second looks every requested field up in
  \<^verbatim>\<open>schema._declared_fields\<close> and raises at the first one that is missing.
\<close>

fun as_list :: "qvalue \<Rightarrow> string list" where
  "as_list (Lst xs) = xs"
| "as_list (Str s) = [s]"

fun fields_loop ::
  "(string \<Rightarrow> error + schema) \<Rightarrow> (string list) dict \<Rightarrow> error + unit" where
  "fields_loop get_schema_from_type [] = Inr ()"
| "fields_loop get_schema_from_type ((key, v) # rest) =
     (case get_schema_from_type key of
        Inl e \<Rightarrow> Inl e
      | Inr sch \<Rightarrow>
          (case find (\<lambda>obj. map_of (declared_fields sch) obj = None) v of
             Some obj \<Rightarrow> Inl (InvalidField (sname sch @ '' has no attribute '' @ obj))
           | None \<Rightarrow> fields_loop get_schema_from_type rest))"

definition fields ::
  "(string \<Rightarrow> error + schema) \<Rightarrow> query_string_manager \<Rightarrow> error + (string list) dict" where
  "fields get_schema_from_type m =
     (case get_key_values m ''fields'' of
        Inl e \<Rightarrow> Inl e
      | Inr extracted \<Rightarrow>
          (let result = map (\<lambda>(key, v). (key, as_list v)) extracted in
           case fields_loop get_schema_from_type result of
             Inl e \<Rightarrow> Inl e
           | Inr u \<Rightarrow> Inr result))"

section \<open>Sorting\<close>

text \<open>
  The pattern of lines 178 to 183,
  \<^verbatim>\<open>(-?)(?:\[((?:nullsfirst)|(?:nullslast))\])?((?:\w+\.)*)(\w+)\<close>, applied with
  \<^verbatim>\<open>pattern.match\<close>: it has to match at the start of the segment, not all of it.
  \<open>is_word\<close> is \<^verbatim>\<open>\w\<close> on ASCII.
\<close>

definition is_word :: "char \<Rightarrow> bool" where
  "is_word c =
     (let n = (of_char c :: nat) in
      (48 \<le> n \<and> n \<le> 57) \<or> (65 \<le> n \<and> n \<le> 90) \<or> (97 \<le> n \<and> n \<le> 122) \<or> n = 95)"

text \<open>
  The greedy \<^verbatim>\<open>(?:\w+\.)*\<close>: as many groups of a full run of word characters and a
  dot as there are; the matched text and what follows it. A shorter run of word
  characters is never followed by a dot, so no other split of a group can match.
\<close>

function word_dots :: "string \<Rightarrow> string \<times> string" where
  "word_dots s =
     (let w = takeWhile is_word s; r = dropWhile is_word s in
      if w \<noteq> [] \<and> r \<noteq> [] \<and> hd r = CHR ''.''
      then (let (p, r') = word_dots (tl r) in (w @ ''.'' @ p, r'))
      else ([], s))"
  by pat_completeness auto
termination
proof (relation "measure length")
  show "wf (measure length)" by simp
next
  fix s w r :: string
  assume r: "r = dropWhile is_word s" and "w \<noteq> [] \<and> r \<noteq> [] \<and> hd r = CHR ''.''"
  then have "r \<noteq> []" by simp
  then have "length (tl r) < length r" by simp
  moreover have "length r \<le> length s" unfolding r by (rule length_dropWhile_le)
  ultimately show "(tl r, s) \<in> measure length" by simp
qed

declare word_dots.simps [simp del]

text \<open>
  The last two groups of the pattern. When word characters follow the dotted groups
  they are the field. When none do, the matcher gives the last dotted group back and its
  word is the field: \<open>p\<close> without its final dot ends in that word. With no dotted group
  and no word character there is no match.
\<close>

definition path_and_field :: "string \<Rightarrow> (string \<times> string) option" where
  "path_and_field s =
     (let (p, r) = word_dots s; w = takeWhile is_word r in
      if w \<noteq> [] then Some (p, w)
      else if p \<noteq> [] then
        (let q = butlast p; f = rev (takeWhile is_word (rev q)) in
         Some (take (length q - length f) q, f))
      else None)"

text \<open>
  The whole pattern: the groups \<open>(minus, nulls, join_path, schema_field)\<close> of
  \<^verbatim>\<open>match.groups()\<close>, \<open>None\<close> when \<^verbatim>\<open>match\<close> is \<^verbatim>\<open>None\<close>. A leading \<^verbatim>\<open>-\<close> and a
  nulls directive are taken when present: the rest of the pattern cannot start at
  either.
\<close>

definition sort_match :: "string \<Rightarrow> (string \<times> string option \<times> string \<times> string) option" where
  "sort_match sort_field =
     (let (minus_str, r1) = (if startswith sort_field ''-'' then (''-'', drop 1 sort_field)
                         else ([], sort_field));
          (nulls_dir, r2) = (if startswith r1 ''[nullsfirst]'' then (Some ''nullsfirst'', drop 12 r1)
                         else if startswith r1 ''[nullslast]'' then (Some ''nullslast'', drop 11 r1)
                         else (None, r1))
      in map_option (\<lambda>(join_path, schema_field). (minus_str, nulls_dir, join_path, schema_field))
           (path_and_field r2))"

text \<open>
  The loop of lines 196 to 203 over \<^verbatim>\<open>schema_joins\<close>, with \<^verbatim>\<open>cur_sch\<close> and
  \<^verbatim>\<open>model_joins\<close> as they stand.
\<close>

fun resolve_joins :: "schema \<Rightarrow> string list \<Rightarrow> string list \<Rightarrow> error + schema \<times> string list" where
  "resolve_joins cur_sch [] model_joins = Inr (cur_sch, model_joins)"
| "resolve_joins cur_sch (join # rest) model_joins =
     (if join \<notin> set (get_relationships cur_sch)
      then Inl (InvalidSort (sname cur_sch @ '' has no relationship '' @ join))
      else (case map_of (declared_fields cur_sch) join of
              None \<Rightarrow> Inl KeyError
            | Some (Attribute mf) \<Rightarrow> Inl AttributeError
            | Some (Relationship many mf rel) \<Rightarrow>
                if many
                then Inl (InvalidSort (''Cannot do X->many join from '' @ sname cur_sch
                                        @ '' to '' @ join))
                else (case get_model_field cur_sch join of
                        Inl e \<Rightarrow> Inl e
                      | Inr model_join \<Rightarrow>
                          (case get_related_schema cur_sch join of
                             Inl e \<Rightarrow> Inl e
                           | Inr next_sch \<Rightarrow>
                               resolve_joins next_sch rest (model_joins @ [model_join])))))"

text \<open>Line 191: the components of the matched path.\<close>

definition schema_joins_of :: "string \<Rightarrow> string list" where
  "schema_joins_of join_path =
     (if join_path \<noteq> [] then py_split CHR ''.'' (py_strip CHR ''.'' join_path) else [])"

text \<open>
  The body of the loop of line 184 for one segment: lines 186 to 211. The message of
  line 188 is a plain string literal, so its braces are not filled in.
\<close>

definition sort_segment :: "schema \<Rightarrow> string \<Rightarrow> error + sort_item" where
  "sort_segment root sort_field =
     (case sort_match sort_field of
        None \<Rightarrow> Inl (InvalidSort ''Invalid sort field format {sort_field}'')
      | Some (minus_str, nulls_dir, join_path, schema_field) \<Rightarrow>
          (let ord = (if minus_str \<noteq> [] then ''desc'' else ''asc'');
               schema_joins = schema_joins_of join_path
           in case resolve_joins root schema_joins [] of
                Inl e \<Rightarrow> Inl e
              | Inr (cur_sch, model_joins) \<Rightarrow>
                  if map_of (declared_fields cur_sch) schema_field = None
                  then Inl (InvalidSort (sname cur_sch @ '' has no attribute '' @ schema_field))
                  else if schema_field \<in> set (get_relationships cur_sch)
                  then Inl (InvalidSort (''You can'' @ [CHR 0x27] @ ''t sort on '' @ schema_field
                                          @ '' because it is a relationship field''))
                  else (case get_model_field cur_sch schema_field of
                          Inl e \<Rightarrow> Inl e
                        | Inr mf \<Rightarrow>
                            Inr \<lparr>field = mf, order = ord, nulls = nulls_dir,
                                 joins = model_joins\<rparr>)))"

fun sorting_loop :: "schema \<Rightarrow> string list \<Rightarrow> error + sort_item list" where
  "sorting_loop root [] = Inr []"
| "sorting_loop root (sort_field # rest) =
     (case sort_segment root sort_field of
        Inl e \<Rightarrow> Inl e
      | Inr item \<Rightarrow> map_sum id (Cons item) (sorting_loop root rest))"

text \<open>\<^verbatim>\<open>sorting\<close>, lines 160 to 213: an absent or empty \<^verbatim>\<open>sort\<close> gives the empty list.\<close>

definition sorting :: "query_string_manager \<Rightarrow> error + sort_item list" where
  "sorting m =
     (case map_of (qs m) ''sort'' of
        None \<Rightarrow> Inr []
      | Some s \<Rightarrow> if s = [] then Inr [] else sorting_loop (schema m) (py_split CHR '','' s))"

section \<open>Includes\<close>

text \<open>
  \<^verbatim>\<open>include\<close>, lines 215 to 229, named \<open>include_accessor\<close> here.
  \<^verbatim>\<open>include_param\<close> is the raw string, or the empty list when the parameter is
  absent; either way the loop of line 224 runs over its elements, which for a string
  are its characters, each a string of length one.
\<close>

fun include_loop :: "int \<Rightarrow> string \<Rightarrow> error + unit" where
  "include_loop limit [] = Inr ()"
| "include_loop limit (c # rest) =
     (if int (length (py_split CHR ''.'' [c])) > limit
      then Inl (InvalidInclude (''You can'' @ [CHR 0x27] @ ''t use include through more than ''
                                 @ show_int limit @ '' relationships''))
      else include_loop limit rest)"

definition include_accessor :: "config \<Rightarrow> query_string_manager \<Rightarrow> error + string list" where
  "include_accessor cfg m =
     (let include_param = (case map_of (qs m) ''include'' of None \<Rightarrow> [] | Some s \<Rightarrow> s) in
      case (case MAX_INCLUDE_DEPTH cfg of
              None \<Rightarrow> Inr ()
            | Some limit \<Rightarrow> include_loop limit include_param) of
        Inl e \<Rightarrow> Inl e
      | Inr u \<Rightarrow> if include_param \<noteq> [] then Inr (py_split CHR '','' include_param) else Inr [])"

section \<open>Chains of to-one relationships\<close>


section \<open>Example schemas\<close>

text \<open>
  Two schemas for the concrete instances below: a book has a title and one author, an
  author has a name and many books.
\<close>

definition author_schema :: schema where
  "author_schema =
     Schema ''AuthorSchema''
       [(''name'', Attribute ''name''),
        (''books'', Relationship True ''books''
                     (Schema ''BookSchema'' [(''title'', Attribute ''title_col'')]))]"

definition book_schema :: schema where
  "book_schema =
     Schema ''BookSchema''
       [(''title'', Attribute ''title_col''),
        (''author'', Relationship False ''author_rel'' author_schema)]"

section \<open>A sample decoder\<close>

text \<open>
  What \<^verbatim>\<open>json.loads\<close> returns on the texts of the concrete instances below, as a
  table; it stands for the decoder parameter there, and a text outside the table, such
  as \<^verbatim>\<open>not-json\<close>, is one the decoder rejects.
\<close>

definition sample_loads :: "string \<Rightarrow> pyval option" where
  "sample_loads =
     map_of
       [(''[{\"name\":\"age\",\"op\":\"eq\",\"val\":30}]'',
           PList [PDict [(''name'', PStr ''age''), (''op'', PStr ''eq''), (''val'', PInt 30)]]),
        (''{\"name\":\"age\"}'', PDict [(''name'', PStr ''age'')]),
        (''\"ab\"'', PStr ''ab''),
        (''5'', PInt 5),
        (''1.5'', PFloat ''1.5''),
        (''true'', PBool True),
        (''null'', PNone)]"

section \<open>Properties of bracket-group extraction\<close>

lemma py_index_None: "py_index c s = None \<longleftrightarrow> c \<notin> set s"
  by (induction s) auto

lemma py_index_first: "c \<notin> set xs \<Longrightarrow> py_index c (xs @ c # ys) = Some (length xs)"
  by (induction xs) auto

lemma item_key_None: "item_key key = None \<longleftrightarrow> CHR ''['' \<notin> set key \<or> CHR '']'' \<notin> set key"
proof -
  have "py_index CHR ''['' key = None \<longleftrightarrow> CHR ''['' \<notin> set key"
    and "py_index CHR '']'' key = None \<longleftrightarrow> CHR '']'' \<notin> set key"
    by (simp_all add: py_index_None)
  then show ?thesis
    by (cases "py_index CHR ''['' key"; cases "py_index CHR '']'' key") (auto simp: item_key_def)
qed

lemma item_key_bracketed:
  assumes "CHR ''['' \<notin> set nm" "CHR '']'' \<notin> set nm" "CHR '']'' \<notin> set sk"
  shows "item_key (nm @ ''['' @ sk @ '']'' @ rest) = Some sk"
proof -
  have 1: "py_index CHR ''['' (nm @ ''['' @ sk @ '']'' @ rest) = Some (length nm)"
    using py_index_first [OF assms(1)] by simp
  have "CHR '']'' \<notin> set (nm @ ''['' @ sk)" using assms by simp
  from py_index_first [OF this, of rest]
  have 2: "py_index CHR '']'' (nm @ ''['' @ sk @ '']'' @ rest) = Some (length nm + 1 + length sk)"
    by simp
  show ?thesis using 1 2 by (simp add: item_key_def py_slice_def)
qed

lemma loop_first_bad:
  assumes "\<forall>(k, w) \<in> set before. startswith k name \<longrightarrow> item_key k \<noteq> None"
    and "startswith key name" and "item_key key = None"
  shows "get_key_values_loop name (before @ (key, v) # after) acc = Inl (BadRequest ''Parse error'' key)"
  using assms by (induction before arbitrary: acc) auto

lemma loop_succeeds:
  assumes "\<forall>(k, w) \<in> set xs. startswith k name \<longrightarrow> item_key k \<noteq> None"
  shows "\<exists>d. get_key_values_loop name xs acc = Inr d"
  using assms by (induction xs arbitrary: acc) auto

lemma loop_content:
  assumes "get_key_values_loop name xs acc = Inr d"
  shows "map_of d sk =
     (case filter (\<lambda>(k, w). startswith k name \<and> item_key k = Some sk) xs of
        [] \<Rightarrow> map_of acc sk
      | ys \<Rightarrow> Some (item_value (snd (last ys))))"
  using assms
proof (induction xs arbitrary: acc)
  case Nil
  then show ?case by simp
next
  case (Cons a xs)
  obtain k w where a: "a = (k, w)" by (cases a)
  show ?case
  proof (cases "startswith k name")
    case False
    with Cons a show ?thesis by simp
  next
    case True
    with Cons.prems a obtain k' where k': "item_key k = Some k'"
      and run: "get_key_values_loop name xs (AList.update k' (item_value w) acc) = Inr d"
      by (auto split: option.splits)
    from Cons.IH [OF run] show ?thesis
      using a True k' by (auto simp: update_conv' split: list.splits)
  qed
qed


text \<open>
  Claim C7. Let \<open>key\<close> be a key of the query string that starts with the prefix
  \<open>name\<close>, no earlier key failing. If \<open>key\<close> has no \<^verbatim>\<open>[\<close> or no \<^verbatim>\<open>]\<close>, extraction
  fails with \<^verbatim>\<open>BadRequest\<close> whose source parameter is \<open>key\<close>. If \<open>key\<close> is
  \<^verbatim>\<open>nm[sk]\<close> and no later key of the group fails or has the same sub-key (a later one
  would overwrite the entry), extraction returns a mapping that holds under \<open>sk\<close> the
  list \<^verbatim>\<open>v.split(',')\<close> when \<open>v\<close> has a comma and the scalar \<open>v\<close> when it has none.
\<close>

theorem get_key_values_bracket_groups:
  assumes split: "qs m = before @ (key, v) # after"
    and pre: "startswith key name"
    and before_ok: "\<forall>(k, w) \<in> set before. startswith k name \<longrightarrow> item_key k \<noteq> None"
  shows "(CHR ''['' \<notin> set key \<or> CHR '']'' \<notin> set key \<longrightarrow>
            get_key_values m name = Inl (BadRequest ''Parse error'' key))
       \<and> (\<forall>nm sk. key = nm @ ''['' @ sk @ '']''
              \<and> CHR ''['' \<notin> set nm \<and> CHR '']'' \<notin> set nm \<and> CHR '']'' \<notin> set sk
              \<and> (\<forall>(k, w) \<in> set after.
                    startswith k name \<longrightarrow> item_key k \<noteq> None \<and> item_key k \<noteq> Some sk)
              \<longrightarrow> (\<exists>d. get_key_values m name = Inr d
                       \<and> map_of d sk = Some (if CHR '','' \<in> set v
                                               then Lst (py_split CHR '','' v) else Str v)))"
proof (intro conjI impI allI)
  assume "CHR ''['' \<notin> set key \<or> CHR '']'' \<notin> set key"
  then have "item_key key = None" by (simp add: item_key_None)
  from loop_first_bad [OF before_ok pre this]
  show "get_key_values m name = Inl (BadRequest ''Parse error'' key)"
    by (simp add: get_key_values_def split)
next
  fix nm sk
  assume form: "key = nm @ ''['' @ sk @ '']''
      \<and> CHR ''['' \<notin> set nm \<and> CHR '']'' \<notin> set nm \<and> CHR '']'' \<notin> set sk
      \<and> (\<forall>(k, w) \<in> set after.
            startswith k name \<longrightarrow> item_key k \<noteq> None \<and> item_key k \<noteq> Some sk)"
  then have "item_key (nm @ ''['' @ sk @ '']'' @ []) = Some sk"
    by (intro item_key_bracketed) simp_all
  with form have sk: "item_key key = Some sk" by simp
  from form have after_ok:
    "\<forall>(k, w) \<in> set after. startswith k name \<longrightarrow> item_key k \<noteq> None \<and> item_key k \<noteq> Some sk"
    by simp
  have "\<forall>(k, w) \<in> set (qs m). startswith k name \<longrightarrow> item_key k \<noteq> None"
    using before_ok after_ok sk by (auto simp: split)
  from loop_succeeds [OF this] obtain d where d: "get_key_values_loop name (qs m) [] = Inr d"
    by blast
  have none_after: "filter (\<lambda>(k, w). startswith k name \<and> item_key k = Some sk) after = []"
    using after_ok by (auto simp: filter_empty_conv)
  let ?hits = "filter (\<lambda>(k, w). startswith k name \<and> item_key k = Some sk) (qs m)"
  have hits: "?hits = filter (\<lambda>(k, w). startswith k name \<and> item_key k = Some sk) before
                @ [(key, v)]"
    using pre sk none_after by (simp add: split)
  then have "?hits \<noteq> []" and "last ?hits = (key, v)" by simp_all
  then have "map_of d sk = Some (item_value v)"
    using loop_content [OF d, of sk] by (cases ?hits) simp_all
  then show "\<exists>d. get_key_values m name = Inr d
      \<and> map_of d sk = Some (if CHR '','' \<in> set v then Lst (py_split CHR '','' v) else Str v)"
    using d by (simp add: get_key_values_def item_value_def)
qed

theorem get_key_values_bracket_groups_witness:
  "startswith ''page[size]'' ''page''
   \<and> (\<exists>d. get_key_values \<lparr>qs = [(''page[number]'', ''1''), (''page[size]'', ''10,20'')],
                              schema = Schema ''S'' []\<rparr> ''page'' = Inr d
          \<and> map_of d ''size'' = Some (Lst [''10'', ''20'']))
   \<and> (\<exists>d. get_key_values \<lparr>qs = [(''page[number]'', ''1'')], schema = Schema ''S'' []\<rparr> ''page''
            = Inr d
          \<and> map_of d ''number'' = Some (Str ''1''))
   \<and> get_key_values \<lparr>qs = [(''page[number]'', ''1''), (''page'', ''3'')],
                       schema = Schema ''S'' []\<rparr> ''page''
       = Inl (BadRequest ''Parse error'' ''page'')"
proof -
  let ?S = "Schema ''S'' []"
  have a: "startswith ''page[size]'' ''page''" by (simp add: startswith_def)
  have b: "startswith ''page[number]'' ''page''" by (simp add: startswith_def)
  have c: "startswith ''page'' ''page''" by (simp add: startswith_def)
  have ok: "\<forall>(k, w) \<in> set [(''page[number]'', ''1'')]. startswith k ''page'' \<longrightarrow> item_key k \<noteq> None"
    by (simp add: item_key_def py_slice_def)
  have 1: "\<exists>d. get_key_values \<lparr>qs = [(''page[number]'', ''1''), (''page[size]'', ''10,20'')],
                                 schema = ?S\<rparr> ''page'' = Inr d
          \<and> map_of d ''size'' = Some (Lst [''10'', ''20''])"
    using get_key_values_bracket_groups
      [of "\<lparr>qs = [(''page[number]'', ''1''), (''page[size]'', ''10,20'')], schema = ?S\<rparr>"
          "[(''page[number]'', ''1'')]" "''page[size]''" "''10,20''" "[]" "''page''", OF _ a ok]
    by (simp add: conj_imp_eq_imp_imp) (drule spec [of _ "''page''"], drule spec [of _ "''size''"], simp)
  have 2: "\<exists>d. get_key_values \<lparr>qs = [(''page[number]'', ''1'')], schema = ?S\<rparr> ''page'' = Inr d
          \<and> map_of d ''number'' = Some (Str ''1'')"
    using get_key_values_bracket_groups
      [of "\<lparr>qs = [(''page[number]'', ''1'')], schema = ?S\<rparr>"
          "[]" "''page[number]''" "''1''" "[]" "''page''", OF _ b]
    by simp (drule spec [of _ "''page''"], drule spec [of _ "''number''"], simp)
  have 3: "get_key_values \<lparr>qs = [(''page[number]'', ''1''), (''page'', ''3'')], schema = ?S\<rparr> ''page''
       = Inl (BadRequest ''Parse error'' ''page'')"
    using get_key_values_bracket_groups
      [of "\<lparr>qs = [(''page[number]'', ''1''), (''page'', ''3'')], schema = ?S\<rparr>"
          "[(''page[number]'', ''1'')]" "''page''" "''3''" "[]" "''page''", OF _ c ok]
    by simp
  from a 1 2 3 show ?thesis by blast
qed

section \<open>Properties of the managed-parameter view\<close>

text \<open>
  Claim C1, at the input \<^verbatim>\<open>{'filter[name]': 'bob', 'utm_source': 'x'}\<close>. The key
  \<^verbatim>\<open>utm_source\<close> starts with no managed name, but the second disjunct of line 76 does
  not look at the key: it holds for every key as soon as the query string has one
  \<^verbatim>\<open>filter[...]\<close> key. The view keeps the unrelated key.
\<close>

theorem querystring_keeps_unrelated_key:
  "querystring \<lparr>qs = [(''filter[name]'', ''bob''), (''utm_source'', ''x'')],
                 schema = Schema ''S'' []\<rparr>
   = Inr [(''filter[name]'', ''bob''), (''utm_source'', ''x'')]"
  by code_simp

text \<open>
  What the view is in general: the whole query string as soon as one key starts with
  \<^verbatim>\<open>filter[\<close>, and the entries whose key starts with a managed name when none does.
\<close>

lemma querystring_with_filter_group:
  assumes "get_key_values m ''filter['' = Inr d" and "d \<noteq> []"
  shows "querystring m = Inr (qs m)"
proof -
  have "querystring_loop m xs = Inr xs" for xs
    using assms by (induction xs) auto
  then show ?thesis by (simp add: querystring_def)
qed

lemma querystring_without_filter_group:
  assumes "get_key_values m ''filter['' = Inr []"
  shows "querystring m = Inr (filter (\<lambda>(key, v). list_ex (startswith key) MANAGED_KEYS) (qs m))"
proof -
  have "querystring_loop m xs
        = Inr (filter (\<lambda>(key, v). list_ex (startswith key) MANAGED_KEYS) xs)" for xs
    using assms by (induction xs) auto
  then show ?thesis by (simp add: querystring_def)
qed

section \<open>Properties of the include accessor\<close>

text \<open>
  What the loop of lines 224 to 227 decides: a single character splits on \<^verbatim>\<open>.\<close> into
  one piece, or into two when it is the dot itself, so the loop raises only for a limit
  below one (on any non-empty value) or below two (on a value with a dot).
\<close>

lemma include_loop_result:
  "include_loop limit s =
     (if (s \<noteq> [] \<and> limit < 1) \<or> (CHR ''.'' \<in> set s \<and> limit < 2)
      then Inl (InvalidInclude (''You can'' @ [CHR 0x27] @ ''t use include through more than ''
                                 @ show_int limit @ '' relationships''))
      else Inr ())"
  by (induction s) auto

text \<open>
  Claim C2, at \<^verbatim>\<open>MAX_INCLUDE_DEPTH = 2\<close> and \<^verbatim>\<open>include=a.b.c\<close>: a path of three
  segments passes the limit of two and is returned.
\<close>

theorem include_depth_three_passes_limit_two:
  "include_accessor \<lparr>ALLOW_DISABLE_PAGINATION = None, MAX_PAGE_SIZE = None,
                      MAX_INCLUDE_DEPTH = Some 2\<rparr>
     \<lparr>qs = [(''include'', ''a.b.c'')], schema = Schema ''S'' []\<rparr>
   = Inr [''a.b.c'']"
  by code_simp

section \<open>Properties of the pagination accessor\<close>

text \<open>
  Claim C3, at \<^verbatim>\<open>{'page[size]': '1,2'}\<close>: extraction turns the value into a list,
  \<^verbatim>\<open>int\<close> of a list raises \<^verbatim>\<open>TypeError\<close>, and line 121 catches \<^verbatim>\<open>ValueError\<close> only.
\<close>

theorem pagination_list_value_type_error:
  "pagination \<lparr>ALLOW_DISABLE_PAGINATION = None, MAX_PAGE_SIZE = None, MAX_INCLUDE_DEPTH = None\<rparr>
     \<lparr>qs = [(''page[size]'', ''1,2'')], schema = Schema ''S'' []\<rparr>
   = Inl TypeError"
  by code_simp

text \<open>
  The rest of the accessor, on an extracted mapping whose sub-keys are \<^verbatim>\<open>number\<close> or
  \<^verbatim>\<open>size\<close> and whose values are strings that are integers: the two policy checks on
  \<^verbatim>\<open>size\<close>, then the mapping itself.
\<close>

lemma pagination_loop_integers:
  assumes "\<forall>(k, v) \<in> set d. k \<in> set [''number'', ''size''] \<and> (\<exists>s i. v = Str s \<and> int_of_str s = Some i)"
  shows "pagination_loop d = Inr ()"
  using assms by (induction d) auto

lemma pagination_of_integers:
  assumes ext: "get_key_values m ''page'' = Inr d"
    and ints: "\<forall>(k, v) \<in> set d. k \<in> set [''number'', ''size'']
                 \<and> (\<exists>s i. v = Str s \<and> int_of_str s = Some i)"
  shows "pagination cfg m =
     (case map_of d ''size'' of
        None \<Rightarrow> Inr d
      | Some v \<Rightarrow>
          (case py_int v of
             Inl e \<Rightarrow> Inl e
           | Inr i \<Rightarrow>
               if ALLOW_DISABLE_PAGINATION cfg = Some False \<and> i = 0
               then Inl (BadRequest ''You are not allowed to disable pagination'' ''page[size]'')
               else (case MAX_PAGE_SIZE cfg of
                       None \<Rightarrow> Inr d
                     | Some limit \<Rightarrow>
                         if i > limit
                         then Inl (BadRequest (''Maximum page size is '' @ show_int limit)
                                     ''page[size]'')
                         else Inr d)))"
proof -
  have loop: "pagination_loop d = Inr ()" using ints by (rule pagination_loop_integers)
  show ?thesis
  proof (cases "map_of d ''size''")
    case None
    with ext loop show ?thesis
      by (simp add: pagination_def size_or_default_def split: option.splits)
  next
    case (Some v)
    then have "(''size'', v) \<in> set d" by (rule map_of_SomeD)
    with ints obtain s i where "v = Str s" and "int_of_str s = Some i" by auto
    with ext loop Some show ?thesis
      by (simp add: pagination_def size_or_default_def split: option.splits)
  qed
qed

section \<open>Properties of the sorting accessor\<close>

text \<open>
  Claim C4, at two segments outside the grammar. For \<^verbatim>\<open>!bad\<close> the accessor raises
  \<^verbatim>\<open>InvalidSort\<close> with the message of line 188 as it is written, the segment not in
  it. For \<^verbatim>\<open>title!\<close> the pattern matches the start \<^verbatim>\<open>title\<close> and the accessor returns.
\<close>

theorem sorting_malformed_segments:
  "sorting \<lparr>qs = [(''sort'', ''!bad'')], schema = Schema ''S'' [(''title'', Attribute ''title'')]\<rparr>
     = Inl (InvalidSort ''Invalid sort field format {sort_field}'')
   \<and> sorting \<lparr>qs = [(''sort'', ''title!'')], schema = Schema ''S'' [(''title'', Attribute ''title'')]\<rparr>
     = Inr [\<lparr>field = ''title'', order = ''asc'', nulls = None, joins = []\<rparr>]"
  by code_simp


















section \<open>Properties of the filters accessor\<close>

lemma update_fresh: "k \<notin> fst ` set al \<Longrightarrow> AList.update k v al = al @ [(k, v)]"
  by (induction al) auto

lemma loop_exact:
  assumes "filter (\<lambda>(k, w). startswith k name) xs
           = map (\<lambda>(n, w). (nm @ ''['' @ n @ '']'', w)) groups"
    and "CHR ''['' \<notin> set nm" and "CHR '']'' \<notin> set nm"
    and "\<forall>(n, w) \<in> set groups. CHR '']'' \<notin> set n"
    and "distinct (map fst groups)"
    and "fst ` set groups \<inter> fst ` set acc = {}"
  shows "get_key_values_loop name xs acc = Inr (acc @ map (\<lambda>(n, w). (n, item_value w)) groups)"
  using assms
proof (induction xs arbitrary: acc groups)
  case Nil
  then show ?case by simp
next
  case (Cons a xs)
  obtain k w where a: "a = (k, w)" by (cases a)
  show ?case
  proof (cases "startswith k name")
    case False
    with Cons a show ?thesis by simp
  next
    case True
    with Cons.prems(1) a obtain n gs where groups: "groups = (n, w) # gs"
      and k: "k = nm @ ''['' @ n @ '']''"
      and rest: "filter (\<lambda>(k, w). startswith k name) xs
                 = map (\<lambda>(n, w). (nm @ ''['' @ n @ '']'', w)) gs"
      by (cases groups) auto
    have "CHR '']'' \<notin> set n" using Cons.prems(4) groups by simp
    with Cons.prems(2,3) have "item_key (nm @ ''['' @ n @ '']'' @ []) = Some n"
      by (intro item_key_bracketed)
    then have key: "item_key k = Some n" using k by simp
    have fresh: "n \<notin> fst ` set acc" using Cons.prems(6) groups by auto
    have "get_key_values_loop name xs (acc @ [(n, item_value w)])
          = Inr ((acc @ [(n, item_value w)]) @ map (\<lambda>(n, w). (n, item_value w)) gs)"
    proof (rule Cons.IH [OF rest Cons.prems(2,3)])
      show "\<forall>(n, w) \<in> set gs. CHR '']'' \<notin> set n" using Cons.prems(4) groups by simp
      show "distinct (map fst gs)" using Cons.prems(5) groups by simp
      show "fst ` set gs \<inter> fst ` set (acc @ [(n, item_value w)]) = {}"
        using Cons.prems(5,6) groups by auto
    qed
    then show ?thesis using a True key fresh groups by (simp add: update_fresh)
  qed
qed

lemma get_key_values_exact:
  assumes "filter (\<lambda>(k, w). startswith k name) (qs m)
           = map (\<lambda>(n, w). (nm @ ''['' @ n @ '']'', w)) groups"
    and "CHR ''['' \<notin> set nm" and "CHR '']'' \<notin> set nm"
    and "\<forall>(n, w) \<in> set groups. CHR '']'' \<notin> set n"
    and "distinct (map fst groups)"
  shows "get_key_values m name = Inr (map (\<lambda>(n, w). (n, item_value w)) groups)"
  using loop_exact [OF assms, of "[]"] by (simp add: get_key_values_def)

lemma filters_by_extraction:
  assumes "(map_of (qs m) ''filter'' = None \<and> decoded = [])
           \<or> (\<exists>s v. map_of (qs m) ''filter'' = Some s \<and> json_loads s = Some v
                     \<and> py_iter v = Some decoded)"
  shows "filters json_loads m =
     (case get_key_values m ''filter['' of
        Inl e \<Rightarrow> Inl e
      | Inr d \<Rightarrow> Inr (decoded @ simple_filters d))"
  using assms
  by (auto simp: filters_def simple_filters_def split: sum.splits)




text \<open>
  Claim C9. Let \<^verbatim>\<open>filter\<close> be present. When it decodes to an object, the accessor
  raises nothing for it and its result starts with the keys of the object; when it
  decodes to a string, with the characters of the string; the conditions of the
  \<^verbatim>\<open>filter[...]\<close> keys follow, or the \<^verbatim>\<open>BadRequest\<close> of their extraction. When it decodes
  to \<^verbatim>\<open>null\<close>, a boolean or a number, the accessor fails with \<^verbatim>\<open>InvalidFilters\<close>.
\<close>

theorem filters_non_list_json:
  assumes "map_of (qs m) ''filter'' = Some s"
  shows "(\<forall>kvs. json_loads s = Some (PDict kvs)
            \<longrightarrow> filters json_loads m
                = (case get_key_values m ''filter['' of
                     Inl e \<Rightarrow> Inl e
                   | Inr d \<Rightarrow> Inr (map (\<lambda>kv. PStr (fst kv)) kvs @ simple_filters d)))
       \<and> (\<forall>str. json_loads s = Some (PStr str)
            \<longrightarrow> filters json_loads m
                = (case get_key_values m ''filter['' of
                     Inl e \<Rightarrow> Inl e
                   | Inr d \<Rightarrow> Inr (map (\<lambda>c. PStr [c]) str @ simple_filters d)))
       \<and> (json_loads s = Some PNone \<or> (\<exists>b. json_loads s = Some (PBool b))
          \<or> (\<exists>i. json_loads s = Some (PInt i)) \<or> (\<exists>f. json_loads s = Some (PFloat f))
            \<longrightarrow> filters json_loads m = Inl (InvalidFilters ''Parse error''))"
proof (intro conjI allI impI)
  fix kvs
  assume "json_loads s = Some (PDict kvs)"
  with assms have "(map_of (qs m) ''filter'' = None \<and> map (\<lambda>kv. PStr (fst kv)) kvs = [])
           \<or> (\<exists>s v. map_of (qs m) ''filter'' = Some s \<and> json_loads s = Some v
                     \<and> py_iter v = Some (map (\<lambda>kv. PStr (fst kv)) kvs))"
    by simp
  then show "filters json_loads m
      = (case get_key_values m ''filter['' of
           Inl e \<Rightarrow> Inl e
         | Inr d \<Rightarrow> Inr (map (\<lambda>kv. PStr (fst kv)) kvs @ simple_filters d))"
    by (rule filters_by_extraction)
next
  fix str
  assume "json_loads s = Some (PStr str)"
  with assms have "(map_of (qs m) ''filter'' = None \<and> map (\<lambda>c. PStr [c]) str = [])
           \<or> (\<exists>s v. map_of (qs m) ''filter'' = Some s \<and> json_loads s = Some v
                     \<and> py_iter v = Some (map (\<lambda>c. PStr [c]) str))"
    by simp
  then show "filters json_loads m
      = (case get_key_values m ''filter['' of
           Inl e \<Rightarrow> Inl e
         | Inr d \<Rightarrow> Inr (map (\<lambda>c. PStr [c]) str @ simple_filters d))"
    by (rule filters_by_extraction)
next
  assume "json_loads s = Some PNone \<or> (\<exists>b. json_loads s = Some (PBool b))
          \<or> (\<exists>i. json_loads s = Some (PInt i)) \<or> (\<exists>f. json_loads s = Some (PFloat f))"
  with assms show "filters json_loads m = Inl (InvalidFilters ''Parse error'')"
    by (auto simp: filters_def)
qed

theorem filters_non_list_json_witness:
  "filters sample_loads \<lparr>qs = [(''filter'', ''{\"name\":\"age\"}'')], schema = Schema ''S'' []\<rparr>
     = Inr [PStr ''name'']
   \<and> filters sample_loads \<lparr>qs = [(''filter'', ''\"ab\"'')], schema = Schema ''S'' []\<rparr>
     = Inr [PStr ''a'', PStr ''b'']
   \<and> filters sample_loads \<lparr>qs = [(''filter'', ''5'')], schema = Schema ''S'' []\<rparr>
     = Inl (InvalidFilters ''Parse error'')"
proof -
  let ?S = "Schema ''S'' []"
  have 1: "filters sample_loads \<lparr>qs = [(''filter'', ''{\"name\":\"age\"}'')], schema = ?S\<rparr>
           = Inr [PStr ''name'']"
    using filters_non_list_json
      [of "\<lparr>qs = [(''filter'', ''{\"name\":\"age\"}'')], schema = ?S\<rparr>" "''{\"name\":\"age\"}''"
          sample_loads, THEN conjunct1, rule_format, of "[(''name'', PStr ''age'')]"]
    by (simp add: sample_loads_def get_key_values_def startswith_def simple_filters_def)
  have 2: "filters sample_loads \<lparr>qs = [(''filter'', ''\"ab\"'')], schema = ?S\<rparr>
           = Inr [PStr ''a'', PStr ''b'']"
    using filters_non_list_json
      [of "\<lparr>qs = [(''filter'', ''\"ab\"'')], schema = ?S\<rparr>" "''\"ab\"''"
          sample_loads, THEN conjunct2, THEN conjunct1, rule_format, of "''ab''"]
    by (simp add: sample_loads_def get_key_values_def startswith_def simple_filters_def)
  have 3: "filters sample_loads \<lparr>qs = [(''filter'', ''5'')], schema = ?S\<rparr>
           = Inl (InvalidFilters ''Parse error'')"
    using filters_non_list_json
      [of "\<lparr>qs = [(''filter'', ''5'')], schema = ?S\<rparr>" "''5''"
          sample_loads, THEN conjunct2, THEN conjunct2]
    by (simp add: sample_loads_def)
  from 1 2 3 show ?thesis by blast
qed

section \<open>Properties of the fields accessor\<close>

lemma fields_loop_declared:
  assumes "\<forall>(t, v) \<in> set result. get_schema_from_type t = Inr (sch t)"
    and "\<forall>(t, v) \<in> set result. \<forall>obj \<in> set v. map_of (declared_fields (sch t)) obj \<noteq> None"
  shows "fields_loop get_schema_from_type result = Inr ()"
  using assms
proof (induction result)
  case Nil
  then show ?case by simp
next
  case (Cons a result)
  obtain t v where a: "a = (t, v)" by (cases a)
  with Cons.prems have "find (\<lambda>obj. map_of (declared_fields (sch t)) obj = None) v = None"
    by (auto simp: find_None_iff)
  with Cons a show ?case by simp
qed

lemma fields_loop_undeclared:
  assumes "\<forall>(t, v) \<in> set result. get_schema_from_type t = Inr (sch t)"
    and "(t, v) \<in> set result" and "obj \<in> set v"
    and "map_of (declared_fields (sch t)) obj = None"
  shows "\<exists>msg. fields_loop get_schema_from_type result = Inl (InvalidField msg)"
  using assms
proof (induction result)
  case Nil
  then show ?case by simp
next
  case (Cons a result)
  obtain t' v' where a: "a = (t', v')" by (cases a)
  from Cons.prems(1) a have sch: "get_schema_from_type t' = Inr (sch t')" by simp
  show ?case
  proof (cases "find (\<lambda>obj. map_of (declared_fields (sch t')) obj = None) v'")
    case (Some bad)
    with a sch show ?thesis by simp
  next
    case None
    with Cons.prems(2,3,4) a have "(t, v) \<in> set result"
      by (auto simp: find_None_iff)
    with Cons.IH Cons.prems have "\<exists>msg. fields_loop get_schema_from_type result = Inl (InvalidField msg)"
      by simp
    with a sch None show ?thesis by simp
  qed
qed

text \<open>
  Claim C8. Let the keys of the query string that start with \<^verbatim>\<open>fields\<close> be, in
  order, \<^verbatim>\<open>fields[t]\<close> for the pairs \<open>(t, w)\<close> of \<open>groups\<close>, and let every such type
  \<open>t\<close> resolve to the schema \<open>sch t\<close>. The fields requested for \<open>t\<close> are the pieces of
  \<open>w\<close> when it has a comma and the single \<open>w\<close> when it has none. If one of them is not
  declared on \<open>sch t\<close>, the accessor fails with \<^verbatim>\<open>InvalidField\<close>; if all are declared,
  it returns the mapping from each type to the list of its requested fields.
\<close>

theorem fields_sparse_fieldsets:
  assumes groups: "filter (\<lambda>(k, w). startswith k ''fields'') (qs m)
                   = map (\<lambda>(t, w). (''fields['' @ t @ '']'', w)) groups"
    and names: "\<forall>(t, w) \<in> set groups. CHR '']'' \<notin> set t"
    and keys: "distinct (map fst (qs m))"
    and resolve: "\<forall>(t, w) \<in> set groups. get_schema_from_type t = Inr (sch t)"
  shows "(\<forall>t w obj.
            (t, w) \<in> set groups
            \<and> obj \<in> set (if CHR '','' \<in> set w then py_split CHR '','' w else [w])
            \<and> map_of (declared_fields (sch t)) obj = None
            \<longrightarrow> (\<exists>msg. fields get_schema_from_type m = Inl (InvalidField msg)))
       \<and> ((\<forall>(t, w) \<in> set groups.
              \<forall>obj \<in> set (if CHR '','' \<in> set w then py_split CHR '','' w else [w]).
                map_of (declared_fields (sch t)) obj \<noteq> None)
            \<longrightarrow> fields get_schema_from_type m
                = Inr (map (\<lambda>(t, w). (t, if CHR '','' \<in> set w then py_split CHR '','' w else [w]))
                         groups))"
proof -
  let ?req = "\<lambda>w. if CHR '','' \<in> set w then py_split CHR '','' w else [w]"
  let ?result = "map (\<lambda>(t, w). (t, ?req w)) groups"
  have "distinct (map fst (filter (\<lambda>(k, w). startswith k ''fields'') (qs m)))"
    using keys by (simp add: distinct_map_filter)
  then have "distinct (map (\<lambda>g. ''fields['' @ fst g @ '']'') groups)"
    by (simp add: groups comp_def case_prod_beta)
  then have "distinct (map fst groups)"
    by (simp add: distinct_map inj_on_def)
  with groups names have ext: "get_key_values m ''fields''
      = Inr (map (\<lambda>(t, w). (t, item_value w)) groups)"
    using get_key_values_exact [of "''fields''" m "''fields''" groups] by simp
  have norm: "map (\<lambda>(key, v). (key, as_list v)) (map (\<lambda>(t, w). (t, item_value w)) groups) = ?result"
    by (simp add: item_value_def case_prod_beta comp_def if_distrib [of as_list] cong: if_cong)
  have acc: "fields get_schema_from_type m =
     (case fields_loop get_schema_from_type ?result of Inl e \<Rightarrow> Inl e | Inr u \<Rightarrow> Inr ?result)"
    using norm by (simp add: fields_def ext Let_def del: map_map)
  have res: "\<forall>(t, v) \<in> set ?result. get_schema_from_type t = Inr (sch t)"
    using resolve by auto
  have 1: "\<exists>msg. fields get_schema_from_type m = Inl (InvalidField msg)"
    if "(t, w) \<in> set groups" "obj \<in> set (?req w)" "map_of (declared_fields (sch t)) obj = None"
    for t w obj
  proof -
    from that(1) have "(t, ?req w) \<in> set ?result" by force
    from fields_loop_undeclared [OF res this that(2,3)] acc show ?thesis by auto
  qed
  have 2: "fields get_schema_from_type m = Inr ?result"
    if "\<forall>(t, w) \<in> set groups. \<forall>obj \<in> set (?req w). map_of (declared_fields (sch t)) obj \<noteq> None"
  proof -
    from that have "\<forall>(t, v) \<in> set ?result. \<forall>obj \<in> set v. map_of (declared_fields (sch t)) obj \<noteq> None"
      by auto
    from fields_loop_declared [OF res this] acc show ?thesis by simp
  qed
  from 1 2 show ?thesis by blast
qed

theorem fields_sparse_fieldsets_witness:
  "fields (\<lambda>t. if t = ''book'' then Inr book_schema else Inr author_schema)
     \<lparr>qs = [(''fields[book]'', ''title,author''), (''sort'', ''title''), (''fields[author]'', ''name'')],
        schema = book_schema\<rparr>
   = Inr [(''book'', [''title'', ''author'']), (''author'', [''name''])]
   \<and> (\<exists>msg. fields (\<lambda>t. if t = ''book'' then Inr book_schema else Inr author_schema)
               \<lparr>qs = [(''fields[book]'', ''title,isbn'')], schema = book_schema\<rparr>
             = Inl (InvalidField msg))"
proof -
  let ?get = "\<lambda>t. if t = ''book'' then Inr book_schema else Inr author_schema :: error + schema"
  let ?sch = "\<lambda>t. if t = ''book'' then book_schema else author_schema"
  let ?m1 = "\<lparr>qs = [(''fields[book]'', ''title,author''), (''sort'', ''title''),
                     (''fields[author]'', ''name'')], schema = book_schema\<rparr>"
  let ?g1 = "[(''book'', ''title,author''), (''author'', ''name'')]"
  have g1: "filter (\<lambda>(k, w). startswith k ''fields'') (qs ?m1)
            = map (\<lambda>(t, w). (''fields['' @ t @ '']'', w)) ?g1"
    by (simp add: startswith_def)
  have n1: "\<forall>(t, w) \<in> set ?g1. CHR '']'' \<notin> set t" by simp
  have d1: "distinct (map fst (qs ?m1))" by simp
  have r1: "\<forall>(t, w) \<in> set ?g1. ?get t = Inr (?sch t)" by simp
  have ok1: "\<forall>(t, w) \<in> set ?g1.
               \<forall>obj \<in> set (if CHR '','' \<in> set w then py_split CHR '','' w else [w]).
                 map_of (declared_fields (?sch t)) obj \<noteq> None"
    by (simp add: book_schema_def author_schema_def)
  have 1: "fields ?get ?m1 = Inr [(''book'', [''title'', ''author'']), (''author'', [''name''])]"
    using fields_sparse_fieldsets [OF g1 n1 d1 r1, THEN conjunct2, THEN mp, OF ok1]
    by simp
  let ?m2 = "\<lparr>qs = [(''fields[book]'', ''title,isbn'')], schema = book_schema\<rparr>"
  let ?g2 = "[(''book'', ''title,isbn'')]"
  have g2: "filter (\<lambda>(k, w). startswith k ''fields'') (qs ?m2)
            = map (\<lambda>(t, w). (''fields['' @ t @ '']'', w)) ?g2"
    by (simp add: startswith_def)
  have n2: "\<forall>(t, w) \<in> set ?g2. CHR '']'' \<notin> set t" by simp
  have d2: "distinct (map fst (qs ?m2))" by simp
  have r2: "\<forall>(t, w) \<in> set ?g2. ?get t = Inr (?sch t)" by simp
  have 2: "\<exists>msg. fields ?get ?m2 = Inl (InvalidField msg)"
    using fields_sparse_fieldsets [OF g2 n2 d2 r2, THEN conjunct1, rule_format,
        of "''book''" "''title,isbn''" "''isbn''"]
    by (simp add: book_schema_def)
  from 1 2 show ?thesis by blast
qed

section \<open>Prefix matching in the pagination accessor\<close>














text \<open>
  Why values with a comma are set aside above: extraction makes such a value a list,
  and the \<^verbatim>\<open>TypeError\<close> of \<^verbatim>\<open>int\<close> on it leaves the loop of line 116 before the unknown
  sub-key is reached.
\<close>

lemma pagination_list_value_before_unknown_sub_key:
  "pagination \<lparr>ALLOW_DISABLE_PAGINATION = None, MAX_PAGE_SIZE = None, MAX_INCLUDE_DEPTH = None\<rparr>
     \<lparr>qs = [(''page[size]'', ''1,2''), (''pages[limit]'', ''5'')], schema = Schema ''S'' []\<rparr>
   = Inl TypeError"
  by code_simp


end
